theory Spec2Isabelle
  imports Complex_Main "HOL-Library.Multiset" "HOL-Library.Sublist"
begin

section \<open>Python values used by mastermind.py\<close>

text \<open>
  The exceptions the modelled code can raise: an index out of range
  (\<^verbatim>\<open>xs[i]\<close>, and \<^verbatim>\<open>random.choices\<close> on an empty population) and
  \<^verbatim>\<open>list.index\<close> of an absent element.
\<close>

datatype error = IndexError | ValueError

text \<open>
  Strings are character lists. The model covers ASCII text: \<^verbatim>\<open>str.upper\<close> maps
  the letters a..z to A..Z and leaves every other character as it is.
\<close>

definition upper_char :: "char \<Rightarrow> char" where
  "upper_char c =
     (let n = (of_char c :: nat) in if 97 \<le> n \<and> n \<le> 122 then char_of (n - 32) else c)"

definition str_upper :: "string \<Rightarrow> string" where
  "str_upper s = map upper_char s"

text \<open>\<^verbatim>\<open>list(guess)\<close>: a string becomes the list of its one-character strings.\<close>

definition list_of_str :: "string \<Rightarrow> string list" where
  "list_of_str s = map (\<lambda>c. [c]) s"

text \<open>\<^verbatim>\<open>str(n)\<close> of an integer, as an f-string renders it: decimal digits, a sign when negative.\<close>

fun str_nat :: "nat \<Rightarrow> string" where
  "str_nat n =
     (if n < 10 then [char_of (48 + n)] else str_nat (n div 10) @ [char_of (48 + n mod 10)])"

definition str_int :: "int \<Rightarrow> string" where
  "str_int i = (if i < 0 then CHR ''-'' # str_nat (nat (- i)) else str_nat (nat i))"

text \<open>\<^verbatim>\<open>xs[i]\<close> for an integer index: a negative index counts from the end.\<close>

definition list_getitem :: "'a list \<Rightarrow> int \<Rightarrow> error + 'a" where
  "list_getitem xs i =
     (let pos = (if i < 0 then i + int (length xs) else i)
      in if pos < 0 \<or> int (length xs) \<le> pos then Inl IndexError else Inr (xs ! nat pos))"

text \<open>\<^verbatim>\<open>xs.index(x)\<close>: the position of the first element equal to \<open>x\<close>.\<close>

fun list_index :: "'a list \<Rightarrow> 'a \<Rightarrow> error + nat" where
  "list_index [] x = Inl ValueError"
| "list_index (y # ys) x =
     (if y = x then Inr 0
      else (case list_index ys x of Inl err \<Rightarrow> Inl err | Inr j \<Rightarrow> Inr (Suc j)))"

text \<open>
  \<^verbatim>\<open>random.choices(population, k=k)\<close>. The library draws \<open>k\<close> times (not at all when
  \<open>k \<le> 0\<close>), each time taking \<^verbatim>\<open>population[floor(random() * n)]\<close> with \<open>n\<close> the size
  of the population. The random source is the sequence of values \<^verbatim>\<open>random()\<close>
  returns, \<open>rnd i\<close> being the value of draw \<open>i\<close>; the product is taken over the reals.
\<close>

fun choices_from :: "(nat \<Rightarrow> real) \<Rightarrow> 'a list \<Rightarrow> nat \<Rightarrow> nat \<Rightarrow> error + 'a list" where
  "choices_from rnd population i 0 = Inr []"
| "choices_from rnd population i (Suc k) =
     (case list_getitem population \<lfloor>rnd i * real (length population)\<rfloor> of
        Inl err \<Rightarrow> Inl err
      | Inr x \<Rightarrow>
          (case choices_from rnd population (Suc i) k of
             Inl err \<Rightarrow> Inl err
           | Inr xs \<Rightarrow> Inr (x # xs)))"

definition choices :: "(nat \<Rightarrow> real) \<Rightarrow> 'a list \<Rightarrow> int \<Rightarrow> error + 'a list" where
  "choices rnd population k = choices_from rnd population 0 (nat k)"

text \<open>The contract of \<^verbatim>\<open>random.random()\<close>: every value lies in the interval [0, 1).\<close>

definition random_source :: "(nat \<Rightarrow> real) \<Rightarrow> bool" where
  "random_source rnd = (\<forall>i. 0 \<le> rnd i \<and> rnd i < 1)"

text \<open>Two sample random sources: every draw 0, and every draw 1/2.\<close>

definition rnd_zero :: "nat \<Rightarrow> real" where
  "rnd_zero i = 0"

definition rnd_half :: "nat \<Rightarrow> real" where
  "rnd_half i = 1 / 2"

section \<open>GameConfig\<close>

record GameConfig =
  COLORS :: "string list"
  CODE_LENGTH :: int
  MAX_TRIES :: int

definition default_COLORS :: "string list" where
  "default_COLORS = [''R'', ''G'', ''B'', ''Y'', ''W'', ''O'']"

text \<open>
  The dataclass constructor followed by \<^verbatim>\<open>__post_init__\<close>: a palette that was
  not given (\<^verbatim>\<open>None\<close>) becomes the six default colours. Nothing is validated.
\<close>

definition GameConfig_init :: "string list option \<Rightarrow> int \<Rightarrow> int \<Rightarrow> GameConfig" where
  "GameConfig_init colors code_length max_tries =
     \<lparr>COLORS = (case colors of None \<Rightarrow> default_COLORS | Some cs \<Rightarrow> cs),
      CODE_LENGTH = code_length,
      MAX_TRIES = max_tries\<rparr>"

text \<open>\<^verbatim>\<open>GameConfig()\<close>: code length 4 and 10 tries by default.\<close>

definition default_config :: GameConfig where
  "default_config = GameConfig_init None 4 10"

section \<open>MastermindGame\<close>

record MastermindGame =
  config :: GameConfig
  secret_code :: "string list"
  tries :: int
  game_won :: bool

definition generate_secret_code :: "(nat \<Rightarrow> real) \<Rightarrow> GameConfig \<Rightarrow> error + string list" where
  "generate_secret_code rnd cfg = choices rnd (COLORS cfg) (CODE_LENGTH cfg)"

text \<open>
  \<^verbatim>\<open>__init__\<close>: \<^verbatim>\<open>config or GameConfig()\<close> takes the given configuration (a
  dataclass instance is always true) or the default one; an exception of the secret's
  generation leaves the constructor.
\<close>

definition MastermindGame_init :: "(nat \<Rightarrow> real) \<Rightarrow> GameConfig option \<Rightarrow> error + MastermindGame" where
  "MastermindGame_init rnd given =
     (let cfg = (case given of None \<Rightarrow> default_config | Some c \<Rightarrow> c)
      in case generate_secret_code rnd cfg of
           Inl err \<Rightarrow> Inl err
         | Inr code \<Rightarrow> Inr \<lparr>config = cfg, secret_code = code, tries = 0, game_won = False\<rparr>)"

definition validate_guess :: "MastermindGame \<Rightarrow> string \<Rightarrow> bool" where
  "validate_guess self guess =
     (if int (length guess) \<noteq> CODE_LENGTH (config self) then False
      else list_all (\<lambda>color. str_upper [color] \<in> set (COLORS (config self))) guess)"

subsection \<open>Scoring\<close>

text \<open>
  The two loops of \<^verbatim>\<open>_evaluate_guess\<close> run over the copies of the secret and of the
  guess, whose slots hold a symbol or \<^verbatim>\<open>None\<close>. Each loop is a recursion over the
  indices of its \<^verbatim>\<open>range\<close>, carrying the two copies and the counter; an index outside
  a list raises \<open>IndexError\<close>.
\<close>

fun exact_loop ::
  "nat list \<Rightarrow> 'a option list \<Rightarrow> 'a option list \<Rightarrow> int \<Rightarrow>
     error + ('a option list \<times> 'a option list \<times> int)" where
  "exact_loop [] secret_copy guess_copy exact_matches =
     Inr (secret_copy, guess_copy, exact_matches)"
| "exact_loop (i # rest) secret_copy guess_copy exact_matches =
     (if length guess_copy \<le> i \<or> length secret_copy \<le> i then Inl IndexError
      else if guess_copy ! i = secret_copy ! i
        then exact_loop rest (secret_copy[i := None]) (guess_copy[i := None]) (exact_matches + 1)
        else exact_loop rest secret_copy guess_copy exact_matches)"

fun color_loop ::
  "nat list \<Rightarrow> 'a option list \<Rightarrow> 'a option list \<Rightarrow> int \<Rightarrow> error + int" where
  "color_loop [] secret_copy guess_copy color_matches = Inr color_matches"
| "color_loop (i # rest) secret_copy guess_copy color_matches =
     (if length guess_copy \<le> i then Inl IndexError
      else if guess_copy ! i \<noteq> None \<and> guess_copy ! i \<in> set secret_copy
        then (case list_index secret_copy (guess_copy ! i) of
                Inl err \<Rightarrow> Inl err
              | Inr j \<Rightarrow> color_loop rest (secret_copy[j := None]) guess_copy (color_matches + 1))
        else color_loop rest secret_copy guess_copy color_matches)"

text \<open>
  \<^verbatim>\<open>_evaluate_guess\<close>, with \<^verbatim>\<open>self.secret_code\<close> as its first argument: the pair
  (exact matches, colour matches), or the exception raised.
\<close>

definition evaluate_guess :: "'a list \<Rightarrow> 'a list \<Rightarrow> error + (int \<times> int)" where
  "evaluate_guess secret guess =
     (let secret_copy = map Some secret;
          guess_copy = map Some guess
      in case exact_loop [0..<length secret_copy] secret_copy guess_copy 0 of
           Inl err \<Rightarrow> Inl err
         | Inr (secret_copy', guess_copy', exact_matches) \<Rightarrow>
             (case color_loop [0..<length guess_copy'] secret_copy' guess_copy' 0 of
                Inl err \<Rightarrow> Inl err
              | Inr color_matches \<Rightarrow> Inr (exact_matches, color_matches)))"

subsection \<open>A turn\<close>

definition invalid_message :: string where
  "invalid_message = ''Invalid guess! Please use valid colors and correct length.''"

definition won_message :: "int \<Rightarrow> string" where
  "won_message n = ''Congratulations! You've won in '' @ str_int n @ '' tries!''"

definition lost_message :: "string list \<Rightarrow> string" where
  "lost_message code = ''Game Over! The secret code was '' @ concat code"

definition feedback_message :: "int \<Rightarrow> int \<Rightarrow> string" where
  "feedback_message exact_matches color_matches =
     ''Exact matches: '' @ str_int exact_matches @ '', Color matches: '' @ str_int color_matches"

text \<open>
  \<^verbatim>\<open>play_turn\<close> returns what the call returns (the pair of the flag and the message, or
  the exception that leaves it) together with the game after the call. The try is counted
  before the guess is scored, so an exception of the scoring leaves it counted.
\<close>

definition play_turn :: "MastermindGame \<Rightarrow> string \<Rightarrow> (error + bool \<times> string) \<times> MastermindGame" where
  "play_turn self text =
     (let guess = str_upper text
      in if \<not> validate_guess self guess then (Inr (False, invalid_message), self)
         else
           (let counted = self\<lparr>tries := tries self + 1\<rparr>
            in case evaluate_guess (secret_code counted) (list_of_str guess) of
                 Inl err \<Rightarrow> (Inl err, counted)
               | Inr (exact_matches, color_matches) \<Rightarrow>
                   if exact_matches = CODE_LENGTH (config counted)
                     then (Inr (True, won_message (tries counted)), counted\<lparr>game_won := True\<rparr>)
                   else if MAX_TRIES (config counted) \<le> tries counted
                     then (Inr (True, lost_message (secret_code counted)), counted)
                   else (Inr (True, feedback_message exact_matches color_matches), counted)))"

text \<open>The condition under which the loop of \<^verbatim>\<open>main\<close> asks for another guess.\<close>

definition main_continues :: "MastermindGame \<Rightarrow> bool" where
  "main_continues game = (\<not> game_won game \<and> tries game < MAX_TRIES (config game))"

subsection \<open>The loop of main\<close>

text \<open>
  \<^verbatim>\<open>str.strip\<close> removes the white space at both ends (on ASCII text: tab, line feed,
  vertical tab, form feed, carriage return, the four separators 28 to 31 and the space);
  \<^verbatim>\<open>str.lower\<close> maps A..Z to a..z.
\<close>

definition is_space :: "char \<Rightarrow> bool" where
  "is_space c = (let n = (of_char c :: nat) in (9 \<le> n \<and> n \<le> 13) \<or> (28 \<le> n \<and> n \<le> 32))"

definition str_strip :: "string \<Rightarrow> string" where
  "str_strip s = rev (dropWhile is_space (rev (dropWhile is_space s)))"

definition lower_char :: "char \<Rightarrow> char" where
  "lower_char c =
     (let n = (of_char c :: nat) in if 65 \<le> n \<and> n \<le> 90 then char_of (n + 32) else c)"

definition str_lower :: "string \<Rightarrow> string" where
  "str_lower s = map lower_char s"

text \<open>
  The \<^verbatim>\<open>while\<close> loop of \<^verbatim>\<open>main\<close>, run on the lines the player types; it returns the
  game as the loop leaves it. The loop ends when its condition fails, when the player
  types q (\<^verbatim>\<open>sys.exit\<close>), when an exception leaves \<^verbatim>\<open>play_turn\<close>, or when the input
  is exhausted (\<^verbatim>\<open>input\<close> raises \<^verbatim>\<open>EOFError\<close>). What is printed is not modelled.
\<close>

fun main_loop :: "MastermindGame \<Rightarrow> string list \<Rightarrow> MastermindGame" where
  "main_loop game [] = game"
| "main_loop game (line # rest) =
     (if \<not> main_continues game then game
      else
        (let guess = str_strip line
         in if str_lower guess = ''q'' then game
            else (case play_turn game guess of
                    (Inl err, game') \<Rightarrow> game'
                  | (Inr (is_valid, feedback), game') \<Rightarrow> main_loop game' rest)))"

text \<open>A game on the default configuration with a given secret, tries and won flag.\<close>

definition game_with :: "string list \<Rightarrow> int \<Rightarrow> bool \<Rightarrow> MastermindGame" where
  "game_with code n won = \<lparr>config = default_config, secret_code = code, tries = n, game_won = won\<rparr>"

text \<open>The secret RGBY, used in the examples.\<close>

definition RGBY :: "string list" where
  "RGBY = [''R'', ''G'', ''B'', ''Y'']"

text \<open>
  The invariant of a game's secret: it has \<^verbatim>\<open>CODE_LENGTH\<close> symbols, each of the palette.
  The constructor establishes it for a non-empty palette and a code length that is not
  negative, and \<^verbatim>\<open>play_turn\<close> never changes the secret or the configuration.
\<close>

definition well_formed :: "MastermindGame \<Rightarrow> bool" where
  "well_formed game =
     (int (length (secret_code game)) = CODE_LENGTH (config game)
      \<and> set (secret_code game) \<subseteq> set (COLORS (config game)))"

subsection \<open>Notions used to state the results of the two loops\<close>

text \<open>The symbols a copy still holds: its slots other than \<^verbatim>\<open>None\<close>, as a multiset.\<close>

definition remaining :: "'a option list \<Rightarrow> 'a option multiset" where
  "remaining xs = mset (filter (\<lambda>x. x \<noteq> None) xs)"

text \<open>
  The list \<open>xs\<close> after the first loop has run over the indices from \<open>k\<close> up to \<open>n\<close>:
  the slots where secret and guess agree are \<^verbatim>\<open>None\<close>.
\<close>

definition marked :: "nat \<Rightarrow> nat \<Rightarrow> 'a option list \<Rightarrow> 'a option list \<Rightarrow> 'a option list \<Rightarrow> 'a option list" where
  "marked k n xs sc gc =
     map (\<lambda>i. if k \<le> i \<and> i < n \<and> gc ! i = sc ! i then None else xs ! i) [0..<length xs]"

section \<open>The second loop counts the common symbols\<close>

lemma list_index_in_set:
  "x \<in> set xs \<Longrightarrow> \<exists>j. list_index xs x = Inr j \<and> j < length xs \<and> xs ! j = x"
  by (induction xs) auto

lemma remaining_update_None:
  assumes "j < length xs" and "xs ! j = Some x"
  shows "remaining (xs[j := None]) = remaining xs - {#Some x#}"
  using assms by (simp add: remaining_def mset_update)

lemma remaining_Cons:
  "remaining (x # xs) = (if x = None then remaining xs else add_mset x (remaining xs))"
  by (simp add: remaining_def)

lemma in_remaining: "x \<in># remaining xs \<longleftrightarrow> x \<in> set xs \<and> x \<noteq> None"
  by (auto simp: remaining_def)

lemma color_loop_upt:
  "color_loop [k..<length gc] sc gc c
     = Inr (c + int (size (remaining (drop k gc) \<inter># remaining sc)))"
proof (induction "length gc - k" arbitrary: k sc c)
  case 0
  then show ?case by (simp add: remaining_def)
next
  case (Suc d)
  then have k: "k < length gc" and d: "d = length gc - Suc k" by arith+
  have upt: "[k..<length gc] = k # [Suc k..<length gc]"
    using k by (simp add: upt_conv_Cons)
  have dr: "drop k gc = gc ! k # drop (Suc k) gc"
    using k by (simp add: Cons_nth_drop_Suc)
  show ?case
  proof (cases "gc ! k \<noteq> None \<and> gc ! k \<in> set sc")
    case True
    then obtain x where x: "gc ! k = Some x" by auto
    from True obtain j where j: "list_index sc (gc ! k) = Inr j" "j < length sc" "sc ! j = gc ! k"
      using list_index_in_set by metis
    have mem: "Some x \<in># remaining sc"
      using True x by (simp add: in_remaining)
    have "color_loop [k..<length gc] sc gc c = color_loop [Suc k..<length gc] (sc[j := None]) gc (c + 1)"
      using True k j by (simp add: upt)
    also have "\<dots> = Inr (c + 1 + int (size (remaining (drop (Suc k) gc) \<inter># remaining (sc[j := None]))))"
      using Suc.hyps(1)[OF d] .
    also have "remaining (sc[j := None]) = remaining sc - {#Some x#}"
      using j x by (simp add: remaining_update_None)
    also have "c + 1 + int (size (remaining (drop (Suc k) gc) \<inter># (remaining sc - {#Some x#})))
        = c + int (size (remaining (drop k gc) \<inter># remaining sc))"
      using mem x by (simp add: dr remaining_Cons inter_add_left2)
    finally show ?thesis .
  next
    case False
    have "color_loop [k..<length gc] sc gc c = color_loop [Suc k..<length gc] sc gc c"
      using False k by (auto simp add: upt)
    also have "\<dots> = Inr (c + int (size (remaining (drop (Suc k) gc) \<inter># remaining sc)))"
      using Suc.hyps(1)[OF d] .
    also have "remaining (drop (Suc k) gc) \<inter># remaining sc = remaining (drop k gc) \<inter># remaining sc"
      using False by (auto simp add: dr remaining_Cons inter_add_left1 in_remaining)
    finally show ?thesis .
  qed
qed

section \<open>The first loop marks the positions that agree\<close>

lemma marked_step:
  assumes "k < n" "n \<le> length sc" "n \<le> length gc" "gc ! k = sc ! k"
    and "xs = sc \<or> xs = gc"
  shows "marked (Suc k) n (xs[k := None]) (sc[k := None]) (gc[k := None]) = marked k n xs sc gc"
  unfolding marked_def using assms
  by (intro nth_equalityI) (auto simp: nth_list_update)

lemma marked_skip:
  assumes "gc ! k \<noteq> sc ! k"
  shows "marked (Suc k) n xs sc gc = marked k n xs sc gc"
  unfolding marked_def using assms
  by (intro nth_equalityI) (auto simp: le_less Suc_le_eq)

lemma marked_empty: "n \<le> k \<Longrightarrow> marked k n xs sc gc = xs"
  unfolding marked_def by (intro nth_equalityI) auto

lemma filter_upd:
  "filter (\<lambda>i. gc[k := v] ! i = sc[k := v] ! i) [Suc k..<n] = filter (\<lambda>i. gc ! i = sc ! i) [Suc k..<n]"
  by (rule filter_cong) auto

lemma exact_loop_upt:
  "n \<le> length sc \<Longrightarrow> n \<le> length gc \<Longrightarrow>
   exact_loop [k..<n] sc gc e
     = Inr (marked k n sc sc gc, marked k n gc sc gc,
            e + int (length (filter (\<lambda>i. gc ! i = sc ! i) [k..<n])))"
proof (induction "n - k" arbitrary: k sc gc e)
  case 0
  then show ?case by (simp add: marked_empty)
next
  case (Suc d)
  then have k: "k < n" and d: "d = n - Suc k" by arith+
  have upt: "[k..<n] = k # [Suc k..<n]"
    using k by (simp add: upt_conv_Cons)
  show ?case
  proof (cases "gc ! k = sc ! k")
    case True
    have "exact_loop [k..<n] sc gc e
        = exact_loop [Suc k..<n] (sc[k := None]) (gc[k := None]) (e + 1)"
      using True k Suc.prems by (simp add: upt)
    also have "\<dots> = Inr (marked (Suc k) n (sc[k := None]) (sc[k := None]) (gc[k := None]),
                        marked (Suc k) n (gc[k := None]) (sc[k := None]) (gc[k := None]),
                        e + 1 + int (length (filter (\<lambda>i. gc[k := None] ! i = sc[k := None] ! i) [Suc k..<n])))"
      using Suc.hyps(1)[OF d, of "sc[k := None]" "gc[k := None]" "e + 1"] Suc.prems by simp
    also have "\<dots> = Inr (marked k n sc sc gc, marked k n gc sc gc,
                        e + int (length (filter (\<lambda>i. gc ! i = sc ! i) [k..<n])))"
      using True k Suc.prems by (simp add: marked_step filter_upd upt)
    finally show ?thesis .
  next
    case False
    have "exact_loop [k..<n] sc gc e = exact_loop [Suc k..<n] sc gc e"
      using False k Suc.prems by (simp add: upt)
    also have "\<dots> = Inr (marked (Suc k) n sc sc gc, marked (Suc k) n gc sc gc,
                        e + int (length (filter (\<lambda>i. gc ! i = sc ! i) [Suc k..<n])))"
      using Suc.hyps(1)[OF d, of sc gc e] Suc.prems by simp
    also have "\<dots> = Inr (marked k n sc sc gc, marked k n gc sc gc,
                        e + int (length (filter (\<lambda>i. gc ! i = sc ! i) [k..<n])))"
      using False by (simp add: marked_skip upt)
    finally show ?thesis .
  qed
qed

section \<open>The score of a guess\<close>

lemma length_marked: "length (marked k n xs sc gc) = length xs"
  by (simp add: marked_def)

lemma marked_secret_zip:
  "length sc = length gc \<Longrightarrow>
   marked 0 (length sc) sc sc gc = map (\<lambda>(s, g). if g = s then None else s) (zip sc gc)"
  unfolding marked_def by (intro nth_equalityI) auto

lemma marked_guess_zip:
  "length sc = length gc \<Longrightarrow>
   marked 0 (length sc) gc sc gc = map (\<lambda>(s, g). if g = s then None else g) (zip sc gc)"
  unfolding marked_def by (intro nth_equalityI) auto

lemma zip_as_map_nth:
  "length sc = length gc \<Longrightarrow> zip sc gc = map (\<lambda>i. (sc ! i, gc ! i)) [0..<length sc]"
  by (intro nth_equalityI) auto

lemma count_exact_zip:
  assumes "length sc = length gc"
  shows "length (filter (\<lambda>i. gc ! i = sc ! i) [0..<length sc])
       = length (filter (\<lambda>(s, g). g = s) (zip sc gc))"
proof -
  have "filter (\<lambda>(s, g). g = s) (zip sc gc)
      = map (\<lambda>i. (sc ! i, gc ! i)) (filter (\<lambda>i. gc ! i = sc ! i) [0..<length sc])"
    by (simp add: zip_as_map_nth[OF assms] filter_map o_def)
  then show ?thesis by simp
qed

lemma remaining_secret_marks:
  "length secret = length guess \<Longrightarrow>
   remaining (map (\<lambda>(s, g). if g = s then None else s) (zip (map Some secret) (map Some guess)))
     = image_mset Some (mset (map fst (filter (\<lambda>(s, g). g \<noteq> s) (zip secret guess))))"
  by (induction secret guess rule: list_induct2) (auto simp: remaining_def)

lemma remaining_guess_marks:
  "length secret = length guess \<Longrightarrow>
   remaining (map (\<lambda>(s, g). if g = s then None else g) (zip (map Some secret) (map Some guess)))
     = image_mset Some (mset (map snd (filter (\<lambda>(s, g). g \<noteq> s) (zip secret guess))))"
  by (induction secret guess rule: list_induct2) (auto simp: remaining_def)

lemma count_exact_Some:
  "length secret = length guess \<Longrightarrow>
   length (filter (\<lambda>(s, g). g = s) (zip (map Some secret) (map Some guess)))
     = length (filter (\<lambda>(s, g). g = s) (zip secret guess))"
  by (induction secret guess rule: list_induct2) auto

lemma mset_secret_split:
  "length secret = length guess \<Longrightarrow>
   mset secret = mset (map fst (filter (\<lambda>(s, g). g = s) (zip secret guess)))
               + mset (map fst (filter (\<lambda>(s, g). g \<noteq> s) (zip secret guess)))"
  by (induction secret guess rule: list_induct2) auto

lemma mset_guess_split:
  "length secret = length guess \<Longrightarrow>
   mset guess = mset (map fst (filter (\<lambda>(s, g). g = s) (zip secret guess)))
              + mset (map snd (filter (\<lambda>(s, g). g \<noteq> s) (zip secret guess)))"
  by (induction secret guess rule: list_induct2) auto

lemma image_mset_Some_inter:
  "image_mset Some A \<inter># image_mset Some B = image_mset Some (A \<inter># B)"
  by (simp add: inter_mset_def image_mset_diff_if_inj)

lemma size_inter_common:
  "size ((M + A) \<inter># (M + B)) = size M + size (A \<inter># B)"
  by (simp flip: inter_union_distrib_right)

lemma common_split:
  assumes len: "length secret = length guess"
  shows "size (mset secret \<inter># mset guess)
       = length (filter (\<lambda>(s, g). g = s) (zip secret guess))
         + size (mset (map snd (filter (\<lambda>(s, g). g \<noteq> s) (zip secret guess)))
                 \<inter># mset (map fst (filter (\<lambda>(s, g). g \<noteq> s) (zip secret guess))))"
proof -
  let ?M = "map fst (filter (\<lambda>(s, g). g = s) (zip secret guess))"
  let ?S = "map fst (filter (\<lambda>(s, g). g \<noteq> s) (zip secret guess))"
  let ?G = "map snd (filter (\<lambda>(s, g). g \<noteq> s) (zip secret guess))"
  have s1: "mset secret = mset ?M + mset ?S" by (rule mset_secret_split[OF len])
  have s2: "mset guess = mset ?M + mset ?G" by (rule mset_guess_split[OF len])
  have "size (mset guess \<inter># mset secret) = size ((mset ?M + mset ?G) \<inter># (mset ?M + mset ?S))"
    using s2 s1 by (rule arg_cong2[where f = "\<lambda>a b. size (a \<inter># b)"])
  also have "\<dots> = size (mset ?M) + size (mset ?G \<inter># mset ?S)"
    by (rule size_inter_common)
  finally show ?thesis
    by (simp only: size_mset length_map subset_mset.inf_commute[of "mset secret" "mset guess"])
qed

lemma evaluate_guess_score:
  assumes len: "length secret = length guess"
  shows "evaluate_guess secret guess
       = Inr (int (length (filter (\<lambda>(s, g). g = s) (zip secret guess))),
              int (size (mset secret \<inter># mset guess))
                - int (length (filter (\<lambda>(s, g). g = s) (zip secret guess))))"
proof -
  let ?sc = "map Some secret" and ?gc = "map Some guess"
  let ?M = "map fst (filter (\<lambda>(s, g). g = s) (zip secret guess))"
  let ?S = "map fst (filter (\<lambda>(s, g). g \<noteq> s) (zip secret guess))"
  let ?G = "map snd (filter (\<lambda>(s, g). g \<noteq> s) (zip secret guess))"
  have l: "length ?sc = length ?gc" using len by simp
  have e0: "exact_loop [0..<length ?sc] ?sc ?gc 0
      = Inr (marked 0 (length ?sc) ?sc ?sc ?gc, marked 0 (length ?sc) ?gc ?sc ?gc,
             0 + int (length (filter (\<lambda>i. ?gc ! i = ?sc ! i) [0..<length ?sc])))"
    by (rule exact_loop_upt) (use l in simp_all)
  have p1: "exact_loop [0..<length ?sc] ?sc ?gc 0
      = Inr (map (\<lambda>(s, g). if g = s then None else s) (zip ?sc ?gc),
             map (\<lambda>(s, g). if g = s then None else g) (zip ?sc ?gc),
             int (length (filter (\<lambda>(s, g). g = s) (zip secret guess))))"
    using e0
    by (simp only: marked_secret_zip[OF l] marked_guess_zip[OF l] count_exact_zip[OF l]
        count_exact_Some[OF len] add_0)
  have p2: "color_loop [0..<length (map (\<lambda>(s, g). if g = s then None else g) (zip ?sc ?gc))]
               (map (\<lambda>(s, g). if g = s then None else s) (zip ?sc ?gc))
               (map (\<lambda>(s, g). if g = s then None else g) (zip ?sc ?gc)) 0
      = Inr (int (size (mset ?G \<inter># mset ?S)))"
    by (simp only: color_loop_upt drop_0 remaining_secret_marks[OF len]
        remaining_guess_marks[OF len] image_mset_Some_inter) simp
  have "size (mset secret \<inter># mset guess)
      = length (filter (\<lambda>(s, g). g = s) (zip secret guess)) + size (mset ?G \<inter># mset ?S)"
    by (rule common_split[OF len])
  then have c: "int (size (mset ?G \<inter># mset ?S))
      = int (size (mset secret \<inter># mset guess)) - int (length (filter (\<lambda>(s, g). g = s) (zip secret guess)))"
    by linarith
  show ?thesis
    unfolding evaluate_guess_def Let_def p1 using p2 c by simp
qed

section \<open>Counting the exact matches\<close>

lemma exact_count_le:
  "length (filter (\<lambda>(s, g). g = s) (zip secret guess)) \<le> length secret"
  by (metis length_filter_le length_zip min.cobounded1 le_trans)

lemma exact_count_sym:
  "length secret = length guess \<Longrightarrow>
   length (filter (\<lambda>(s, g). g = s) (zip secret guess))
     = length (filter (\<lambda>(s, g). g = s) (zip guess secret))"
  by (induction secret guess rule: list_induct2) auto

lemma exact_count_all:
  "length secret = length guess \<Longrightarrow>
   length (filter (\<lambda>(s, g). g = s) (zip secret guess)) = length secret \<longleftrightarrow> guess = secret"
proof (induction secret guess rule: list_induct2)
  case Nil
  then show ?case by simp
next
  case (Cons s ss g gs)
  have "length (filter (\<lambda>(s, g). g = s) (zip ss gs)) \<le> length ss"
    by (rule exact_count_le)
  with Cons show ?case by auto
qed

lemma evaluate_guess_self:
  "evaluate_guess secret secret = Inr (int (length secret), 0)"
proof -
  have "length (filter (\<lambda>(s, g). g = s) (zip secret secret)) = length secret"
    using exact_count_all[of secret secret] by simp
  then show ?thesis
    using evaluate_guess_score[of secret secret] by simp
qed

section \<open>Normalising and validating a guess\<close>

lemma upper_char_idem: "upper_char (upper_char c) = upper_char c"
proof -
  define n where "n = (of_char c :: nat)"
  show ?thesis
  proof (cases "97 \<le> n \<and> n \<le> 122")
    case True
    then have small: "n - 32 < 256" and below: "\<not> 97 \<le> n - 32"
      by arith+
    have "(of_char (char_of (n - 32)) :: nat) = n - 32"
      using small by simp
    then have "upper_char (char_of (n - 32)) = char_of (n - 32)"
      using below by (simp add: upper_char_def Let_def)
    moreover have "upper_char c = char_of (n - 32)"
      using True by (simp add: upper_char_def Let_def n_def)
    ultimately show ?thesis by simp
  next
    case False
    then have "upper_char c = c"
      unfolding upper_char_def Let_def n_def by auto
    then show ?thesis by simp
  qed
qed

lemma length_str_upper: "length (str_upper s) = length s"
  by (simp add: str_upper_def)

lemma str_upper_single: "c \<in> set (str_upper s) \<Longrightarrow> str_upper [c] = [c]"
  by (auto simp: str_upper_def upper_char_idem)

lemma validate_guess_upper:
  "validate_guess self (str_upper text) \<longleftrightarrow>
     int (length text) = CODE_LENGTH (config self)
     \<and> (\<forall>c. c \<in> set (str_upper text) \<longrightarrow> [c] \<in> set (COLORS (config self)))"
  by (auto simp: validate_guess_def length_str_upper list_all_iff str_upper_single)

section \<open>The result of a turn\<close>

lemma play_turn_invalid:
  "\<not> validate_guess self (str_upper text) \<Longrightarrow>
   play_turn self text = (Inr (False, invalid_message), self)"
  by (simp add: play_turn_def)

lemma play_turn_valid:
  assumes "validate_guess self (str_upper text)"
    and "length (secret_code self) = length text"
  shows "play_turn self text =
     (let exact_matches = int (length (filter (\<lambda>(s, g). g = s) (zip (secret_code self) (list_of_str (str_upper text)))));
          color_matches = int (size (mset (secret_code self) \<inter># mset (list_of_str (str_upper text)))) - exact_matches;
          counted = self\<lparr>tries := tries self + 1\<rparr>
      in if exact_matches = CODE_LENGTH (config self)
           then (Inr (True, won_message (tries self + 1)), counted\<lparr>game_won := True\<rparr>)
         else if MAX_TRIES (config self) \<le> tries self + 1
           then (Inr (True, lost_message (secret_code self)), counted)
         else (Inr (True, feedback_message exact_matches color_matches), counted))"
proof -
  have "length (secret_code self) = length (list_of_str (str_upper text))"
    using assms(2) by (simp add: list_of_str_def length_str_upper)
  from evaluate_guess_score[OF this] assms(1) show ?thesis
    by (simp add: play_turn_def Let_def)
qed

lemma guess_is_secret_valid:
  assumes "well_formed self" and "list_of_str (str_upper text) = secret_code self"
  shows "validate_guess self (str_upper text)" and "length (secret_code self) = length text"
proof -
  show len: "length (secret_code self) = length text"
    using assms(2)[symmetric] by (simp add: list_of_str_def length_str_upper)
  have "[c] \<in> set (COLORS (config self))" if "c \<in> set (str_upper text)" for c
  proof -
    have "[c] \<in> set (list_of_str (str_upper text))"
      using that by (simp add: list_of_str_def)
    then show ?thesis using assms by (auto simp: well_formed_def)
  qed
  then show "validate_guess self (str_upper text)"
    using assms(1) len by (simp add: validate_guess_upper well_formed_def)
qed

lemma play_turn_secret:
  assumes "well_formed self" and "list_of_str (str_upper text) = secret_code self"
  shows "play_turn self text =
     (Inr (True, won_message (tries self + 1)), self\<lparr>tries := tries self + 1, game_won := True\<rparr>)"
proof -
  have "int (length (filter (\<lambda>(s, g). g = s) (zip (secret_code self) (secret_code self))))
      = CODE_LENGTH (config self)"
    using exact_count_all[of "secret_code self" "secret_code self"] assms(1)
    by (simp add: well_formed_def)
  then show ?thesis
    using play_turn_valid[OF guess_is_secret_valid[OF assms]] assms(2)
    by (simp add: Let_def)
qed

lemma won_message_parts:
  "sublist ''Congratulations'' (won_message n)" "sublist (str_int n) (won_message n)"
proof -
  have "won_message n = [] @ ''Congratulations'' @ (''! You've won in '' @ str_int n @ '' tries!'')"
    by (simp add: won_message_def)
  then show "sublist ''Congratulations'' (won_message n)"
    unfolding sublist_def by blast
  have "won_message n = ''Congratulations! You've won in '' @ str_int n @ '' tries!''"
    by (simp add: won_message_def)
  then show "sublist (str_int n) (won_message n)"
    unfolding sublist_def by blast
qed

lemma lost_message_shows_code: "sublist (concat code) (lost_message code)"
proof -
  have "lost_message code = ''Game Over! The secret code was '' @ concat code @ []"
    by (simp add: lost_message_def)
  then show ?thesis
    unfolding sublist_def by blast
qed

lemma won_not_lost: "won_message n \<noteq> lost_message code"
  by (simp add: won_message_def lost_message_def)

lemma play_turn_frame:
  "config (snd (play_turn self text)) = config self
   \<and> secret_code (snd (play_turn self text)) = secret_code self"
  by (auto simp: play_turn_def Let_def split: sum.splits prod.splits)

lemma play_turn_well_formed:
  "well_formed self \<Longrightarrow> well_formed (snd (play_turn self text))"
  by (simp add: well_formed_def play_turn_frame)

lemma well_formed_RGBY: "well_formed (game_with RGBY n won)"
  by (simp add: well_formed_def game_with_def RGBY_def default_config_def GameConfig_init_def
      default_COLORS_def)

section \<open>The loop of main stops the game\<close>

lemma main_loop_stopped: "\<not> main_continues game \<Longrightarrow> main_loop game inputs = game"
  by (cases inputs) simp_all

lemma play_turn_step:
  "config (snd (play_turn self text)) = config self
   \<and> (game_won self \<longrightarrow> game_won (snd (play_turn self text)))
   \<and> tries (snd (play_turn self text))
       = (if validate_guess self (str_upper text) then tries self + 1 else tries self)"
  by (auto simp: play_turn_def Let_def split: sum.splits prod.splits)

lemma main_loop_bound:
  "tries game \<le> MAX_TRIES (config game) \<Longrightarrow>
   config (main_loop game inputs) = config game
   \<and> tries (main_loop game inputs) \<le> MAX_TRIES (config game)
   \<and> tries game \<le> tries (main_loop game inputs)"
proof (induction inputs arbitrary: game)
  case Nil
  then show ?case by simp
next
  case (Cons line rest)
  show ?case
  proof (cases "main_continues game \<and> str_lower (str_strip line) \<noteq> ''q''")
    case False
    then show ?thesis using Cons.prems by (auto simp: Let_def)
  next
    case True
    obtain r game' where pt: "play_turn game (str_strip line) = (r, game')"
      by (cases "play_turn game (str_strip line)")
    have step: "config game' = config game" "tries game' \<le> tries game + 1" "tries game \<le> tries game'"
      using play_turn_step[of game "str_strip line"] pt by (auto split: if_splits)
    have le: "tries game' \<le> MAX_TRIES (config game')"
      using True step by (simp add: main_continues_def)
    show ?thesis
    proof (cases r)
      case (Inl err)
      then show ?thesis using True pt step le by (simp add: Let_def)
    next
      case (Inr v)
      then have "main_loop game (line # rest) = main_loop game' rest"
        using True pt by (simp add: Let_def split: prod.splits)
      then show ?thesis using Cons.IH[OF le] step by simp
    qed
  qed
qed

section \<open>Drawing the secret\<close>

lemma getitem_draw:
  assumes "0 \<le> r" "r < 1" "population \<noteq> []"
  shows "\<exists>x. list_getitem population \<lfloor>r * real (length population)\<rfloor> = Inr x \<and> x \<in> set population"
proof -
  have pos: "0 < real (length population)" using assms(3) by simp
  have "0 \<le> r * real (length population)" using assms(1) by simp
  then have lo: "0 \<le> \<lfloor>r * real (length population)\<rfloor>" by simp
  have "r * real (length population) < real (length population)"
    using assms(2) pos by simp
  then have hi: "\<lfloor>r * real (length population)\<rfloor> < int (length population)"
    by (simp add: floor_less_iff)
  then have "nat \<lfloor>r * real (length population)\<rfloor> < length population"
    using lo by linarith
  then show ?thesis
    using lo hi by (simp add: list_getitem_def Let_def)
qed

lemma choices_from_ok:
  assumes "random_source rnd" "population \<noteq> []"
  shows "\<exists>xs. choices_from rnd population i k = Inr xs \<and> length xs = k \<and> set xs \<subseteq> set population"
proof (induction k arbitrary: i)
  case 0
  then show ?case by simp
next
  case (Suc k)
  from assms have "0 \<le> rnd i" "rnd i < 1" by (simp_all add: random_source_def)
  from getitem_draw[OF this assms(2)] obtain x
    where x: "list_getitem population \<lfloor>rnd i * real (length population)\<rfloor> = Inr x" "x \<in> set population"
    by blast
  from Suc[of "Suc i"] obtain xs
    where xs: "choices_from rnd population (Suc i) k = Inr xs" "length xs = k" "set xs \<subseteq> set population"
    by blast
  show ?case using x xs by simp
qed

lemma random_source_zero: "random_source rnd_zero"
  by (simp add: random_source_def rnd_zero_def)

lemma random_source_half: "random_source rnd_half"
  by (simp add: random_source_def rnd_half_def)

lemma init_well_formed:
  assumes "random_source rnd" "COLORS cfg \<noteq> []" "0 \<le> CODE_LENGTH cfg"
    and "MastermindGame_init rnd (Some cfg) = Inr game"
  shows "well_formed game \<and> tries game = 0 \<and> \<not> game_won game"
proof -
  from choices_from_ok[OF assms(1,2), of 0 "nat (CODE_LENGTH cfg)"] obtain code
    where c: "choices_from rnd (COLORS cfg) 0 (nat (CODE_LENGTH cfg)) = Inr code"
      "length code = nat (CODE_LENGTH cfg)" "set code \<subseteq> set (COLORS cfg)"
    by blast
  then have "game = \<lparr>config = cfg, secret_code = code, tries = 0, game_won = False\<rparr>"
    using assms(4) by (simp add: MastermindGame_init_def generate_secret_code_def choices_def)
  then show ?thesis
    using c assms(3) by (simp add: well_formed_def)
qed

section \<open>The claims about the scoring\<close>

text \<open>
  C1. With the secret RRGB and the guess RGRB the scoring returns 2 exact matches and
  2 colour matches, and a turn played with that guess reports exactly these numbers.
\<close>

theorem evaluate_guess_RRGB_RGRB:
  "evaluate_guess [''R'', ''R'', ''G'', ''B''] (list_of_str ''RGRB'') = Inr (2, 2)
   \<and> fst (play_turn (game_with [''R'', ''R'', ''G'', ''B''] 0 False) ''RGRB'')
       = Inr (True, ''Exact matches: 2, Color matches: 2'')"
  by code_simp

text \<open>
  C2. For every secret and every guess of the same length the scoring returns a pair of
  counts, neither negative, whose sum is at most the length of the code. The sum is
  exactly the number of symbols the secret and the guess have in common, each counted as
  often as it occurs in both: no occurrence of a repeated symbol is counted twice.
\<close>

theorem evaluate_guess_sum_bounded:
  assumes "length secret = length guess"
  shows "\<exists>exact_matches color_matches.
           evaluate_guess secret guess = Inr (exact_matches, color_matches)
           \<and> 0 \<le> exact_matches \<and> 0 \<le> color_matches
           \<and> exact_matches + color_matches = int (size (mset secret \<inter># mset guess))
           \<and> exact_matches + color_matches \<le> int (length secret)"
proof -
  have "size (mset secret \<inter># mset guess) \<le> size (mset secret)"
    by (rule size_mset_mono) simp
  then have "int (size (mset secret \<inter># mset guess)) \<le> int (length secret)"
    by simp
  moreover have "int (length (filter (\<lambda>(s, g). g = s) (zip secret guess)))
      \<le> int (size (mset secret \<inter># mset guess))"
    using common_split[OF assms] by linarith
  ultimately show ?thesis
    using evaluate_guess_score[OF assms] by simp
qed

text \<open>
  The bound on the pair RRGB, RGRB.
\<close>

theorem evaluate_guess_sum_bounded_witness:
  "length [''R'', ''R'', ''G'', ''B''] = length (list_of_str ''RGRB'')
   \<and> (\<exists>exact_matches color_matches.
        evaluate_guess [''R'', ''R'', ''G'', ''B''] (list_of_str ''RGRB'') = Inr (exact_matches, color_matches)
        \<and> exact_matches + color_matches \<le> int (length [''R'', ''R'', ''G'', ''B'']))"
proof -
  have h: "length [''R'', ''R'', ''G'', ''B''] = length (list_of_str ''RGRB'')"
    by code_simp
  show ?thesis using evaluate_guess_sum_bounded[OF h] h by blast
qed

text \<open>
  C10. The scoring is symmetric: for two symbol lists of the same length, scoring \<open>g\<close>
  as the guess against the secret \<open>s\<close> gives the same pair as scoring \<open>s\<close> as the guess
  against the secret \<open>g\<close>.
\<close>

theorem evaluate_guess_symmetric:
  assumes "length s = length g"
  shows "evaluate_guess g s = evaluate_guess s g"
  using evaluate_guess_score[OF assms] evaluate_guess_score[OF assms[symmetric]]
    exact_count_sym[OF assms]
  by (simp add: subset_mset.inf_commute)

text \<open>
  The symmetry on the pair RRGB, BRRY, both scored (1, 2).
\<close>

theorem evaluate_guess_symmetric_witness:
  "length [''R'', ''R'', ''G'', ''B''] = length [''B'', ''R'', ''R'', ''Y'']
   \<and> evaluate_guess [''B'', ''R'', ''R'', ''Y''] [''R'', ''R'', ''G'', ''B'']
     = evaluate_guess [''R'', ''R'', ''G'', ''B''] [''B'', ''R'', ''R'', ''Y'']
   \<and> evaluate_guess [''R'', ''R'', ''G'', ''B''] [''B'', ''R'', ''R'', ''Y''] = Inr (1, 2)"
proof -
  have h: "length [''R'', ''R'', ''G'', ''B''] = length [''B'', ''R'', ''R'', ''Y'']"
    by simp
  have v: "evaluate_guess [''R'', ''R'', ''G'', ''B''] [''B'', ''R'', ''R'', ''Y''] = Inr (1, 2)"
    by code_simp
  show ?thesis using evaluate_guess_symmetric[OF h] h v by blast
qed

section \<open>The claims about a turn\<close>

text \<open>
  C3. In a game whose secret has \<^verbatim>\<open>CODE_LENGTH\<close> symbols of the palette, a guess whose
  upper-cased form is the secret is accepted: the scoring yields \<^verbatim>\<open>CODE_LENGTH\<close> exact and
  0 colour matches, the try is counted, \<^verbatim>\<open>game_won\<close> becomes true, and the message
  contains "Congratulations" and the number of tries used. This holds whether or not the
  game was won before.
\<close>

theorem play_turn_secret_wins:
  assumes "well_formed self" and "list_of_str (str_upper text) = secret_code self"
  shows "play_turn self text =
           (Inr (True, won_message (tries self + 1)),
            self\<lparr>tries := tries self + 1, game_won := True\<rparr>)
         \<and> evaluate_guess (secret_code self) (list_of_str (str_upper text))
             = Inr (CODE_LENGTH (config self), 0)
         \<and> game_won (snd (play_turn self text))
         \<and> sublist ''Congratulations'' (won_message (tries self + 1))
         \<and> sublist (str_int (tries self + 1)) (won_message (tries self + 1))"
proof -
  have "evaluate_guess (secret_code self) (list_of_str (str_upper text))
      = Inr (CODE_LENGTH (config self), 0)"
    using assms evaluate_guess_self[of "secret_code self"] by (simp add: well_formed_def)
  then show ?thesis
    using play_turn_secret[OF assms] won_message_parts by simp
qed

text \<open>
  The scenario of the specification: secret RGBY, first guess rgby.
\<close>

theorem play_turn_secret_wins_witness:
  "well_formed (game_with RGBY 0 False)
   \<and> list_of_str (str_upper ''rgby'') = secret_code (game_with RGBY 0 False)
   \<and> play_turn (game_with RGBY 0 False) ''rgby''
       = (Inr (True, ''Congratulations! You've won in 1 tries!''), game_with RGBY 1 True)
   \<and> evaluate_guess (secret_code (game_with RGBY 0 False)) (list_of_str (str_upper ''rgby''))
       = Inr (4, 0)"
proof -
  have h2: "list_of_str (str_upper ''rgby'') = secret_code (game_with RGBY 0 False)"
    by code_simp
  have m: "won_message (tries (game_with RGBY 0 False) + 1) = ''Congratulations! You've won in 1 tries!''"
    by code_simp
  have s: "(game_with RGBY 0 False)\<lparr>tries := tries (game_with RGBY 0 False) + 1, game_won := True\<rparr>
      = game_with RGBY 1 True"
    by (simp add: game_with_def)
  have c: "CODE_LENGTH (config (game_with RGBY 0 False)) = 4"
    by (simp add: game_with_def default_config_def GameConfig_init_def)
  show ?thesis
    using play_turn_secret_wins[OF well_formed_RGBY h2] well_formed_RGBY[of 0 False] h2 unfolding m s c by blast
qed

text \<open>
  C4. A guess whose upper-cased form has a length other than \<^verbatim>\<open>CODE_LENGTH\<close>, or holds a
  character that is not in the palette, is rejected with the diagnostic message, and the
  game is left exactly as it was: no try is counted and \<^verbatim>\<open>game_won\<close> is unchanged.
\<close>

theorem play_turn_rejects_invalid:
  assumes "int (length (str_upper text)) \<noteq> CODE_LENGTH (config self)
           \<or> (\<exists>c \<in> set (str_upper text). [c] \<notin> set (COLORS (config self)))"
  shows "play_turn self text = (Inr (False, invalid_message), self)
         \<and> tries (snd (play_turn self text)) = tries self
         \<and> game_won (snd (play_turn self text)) = game_won self"
proof -
  have "\<not> validate_guess self (str_upper text)"
    using assms by (auto simp: validate_guess_upper length_str_upper)
  then show ?thesis by (simp add: play_turn_invalid)
qed

text \<open>
  The two rejected guesses of the specification, RG and RGBX, on a four-symbol code.
\<close>

theorem play_turn_rejects_invalid_witness:
  "int (length (str_upper ''RG'')) \<noteq> CODE_LENGTH (config (game_with RGBY 3 False))
   \<and> play_turn (game_with RGBY 3 False) ''RG'' = (Inr (False, invalid_message), game_with RGBY 3 False)
   \<and> (\<exists>c \<in> set (str_upper ''RGBX''). [c] \<notin> set (COLORS (config (game_with RGBY 3 False))))
   \<and> play_turn (game_with RGBY 3 False) ''RGBX'' = (Inr (False, invalid_message), game_with RGBY 3 False)"
proof -
  have h1: "int (length (str_upper ''RG'')) \<noteq> CODE_LENGTH (config (game_with RGBY 3 False))"
    by code_simp
  have h2: "\<exists>c \<in> set (str_upper ''RGBX''). [c] \<notin> set (COLORS (config (game_with RGBY 3 False)))"
    by code_simp
  show ?thesis
    using h1 h2 play_turn_rejects_invalid[of "''RG''" "game_with RGBY 3 False"] play_turn_rejects_invalid[of "''RGBX''" "game_with RGBY 3 False"]
    by blast
qed

text \<open>
  C5. When the valid guess that makes the number of tries reach \<^verbatim>\<open>MAX_TRIES\<close> is not
  the secret, the turn is accepted, its message is the game-over message, which contains
  the secret written out, and the loop of \<^verbatim>\<open>main\<close> stops: the game is lost.
\<close>

theorem play_turn_last_try_reveals:
  assumes "well_formed self"
    and "validate_guess self (str_upper text)"
    and "list_of_str (str_upper text) \<noteq> secret_code self"
    and "tries self + 1 = MAX_TRIES (config self)"
  shows "play_turn self text =
           (Inr (True, lost_message (secret_code self)), self\<lparr>tries := MAX_TRIES (config self)\<rparr>)
         \<and> sublist (concat (secret_code self)) (lost_message (secret_code self))
         \<and> \<not> main_continues (snd (play_turn self text))"
proof -
  have len: "length (secret_code self) = length text"
    using assms(1,2) by (simp add: well_formed_def validate_guess_upper)
  then have "length (secret_code self) = length (list_of_str (str_upper text))"
    by (simp add: list_of_str_def length_str_upper)
  from exact_count_all[OF this] assms(3)
  have "int (length (filter (\<lambda>(s, g). g = s) (zip (secret_code self) (list_of_str (str_upper text)))))
      \<noteq> CODE_LENGTH (config self)"
    using assms(1) by (simp add: well_formed_def)
  then have "play_turn self text =
      (Inr (True, lost_message (secret_code self)), self\<lparr>tries := MAX_TRIES (config self)\<rparr>)"
    using play_turn_valid[OF assms(2) len] assms(4) by (simp add: Let_def)
  then show ?thesis
    using lost_message_shows_code by (simp add: main_continues_def)
qed

text \<open>
  The tenth guess yyyy against the secret RGBY.
\<close>

theorem play_turn_last_try_reveals_witness:
  "well_formed (game_with RGBY 9 False)
   \<and> validate_guess (game_with RGBY 9 False) (str_upper ''yyyy'')
   \<and> list_of_str (str_upper ''yyyy'') \<noteq> secret_code (game_with RGBY 9 False)
   \<and> tries (game_with RGBY 9 False) + 1 = MAX_TRIES (config (game_with RGBY 9 False))
   \<and> play_turn (game_with RGBY 9 False) ''yyyy''
       = (Inr (True, ''Game Over! The secret code was RGBY''), game_with RGBY 10 False)
   \<and> sublist ''RGBY'' ''Game Over! The secret code was RGBY''"
proof -
  have h2: "validate_guess (game_with RGBY 9 False) (str_upper ''yyyy'')" by code_simp
  have h3: "list_of_str (str_upper ''yyyy'') \<noteq> secret_code (game_with RGBY 9 False)" by code_simp
  have h4: "tries (game_with RGBY 9 False) + 1 = MAX_TRIES (config (game_with RGBY 9 False))"
    by code_simp
  have m: "lost_message (secret_code (game_with RGBY 9 False)) = ''Game Over! The secret code was RGBY''"
    by code_simp
  have k: "concat (secret_code (game_with RGBY 9 False)) = ''RGBY''"
    by code_simp
  have s: "(game_with RGBY 9 False)\<lparr>tries := MAX_TRIES (config (game_with RGBY 9 False))\<rparr>
      = game_with RGBY 10 False"
    by (simp add: game_with_def default_config_def GameConfig_init_def)
  show ?thesis
    using play_turn_last_try_reveals[OF well_formed_RGBY h2 h3 h4] well_formed_RGBY[of 9 False] h2 h3 h4
    unfolding m s k by blast
qed

text \<open>
  C6. The win is checked before the loss: a guess that is the secret, played when the
  try it uses reaches or passes \<^verbatim>\<open>MAX_TRIES\<close>, sets \<^verbatim>\<open>game_won\<close> and returns the success
  message with the number of tries, not the message that reveals the secret.
\<close>

theorem play_turn_win_before_loss:
  assumes "well_formed self" and "list_of_str (str_upper text) = secret_code self"
    and "MAX_TRIES (config self) \<le> tries self + 1"
  shows "play_turn self text =
           (Inr (True, won_message (tries self + 1)),
            self\<lparr>tries := tries self + 1, game_won := True\<rparr>)
         \<and> game_won (snd (play_turn self text))
         \<and> fst (play_turn self text) \<noteq> Inr (True, lost_message (secret_code self))"
  using play_turn_secret[OF assms(1,2)] won_not_lost by simp

text \<open>
  The secret RGBY guessed on the tenth and last try.
\<close>

theorem play_turn_win_before_loss_witness:
  "well_formed (game_with RGBY 9 False)
   \<and> list_of_str (str_upper ''RGBY'') = secret_code (game_with RGBY 9 False)
   \<and> MAX_TRIES (config (game_with RGBY 9 False)) \<le> tries (game_with RGBY 9 False) + 1
   \<and> play_turn (game_with RGBY 9 False) ''RGBY''
       = (Inr (True, ''Congratulations! You've won in 10 tries!''), game_with RGBY 10 True)"
proof -
  have h2: "list_of_str (str_upper ''RGBY'') = secret_code (game_with RGBY 9 False)"
    by code_simp
  have h3: "MAX_TRIES (config (game_with RGBY 9 False)) \<le> tries (game_with RGBY 9 False) + 1"
    by code_simp
  have m: "won_message (tries (game_with RGBY 9 False) + 1) = ''Congratulations! You've won in 10 tries!''"
    by code_simp
  have s: "(game_with RGBY 9 False)\<lparr>tries := tries (game_with RGBY 9 False) + 1, game_won := True\<rparr>
      = game_with RGBY 10 True"
    by (simp add: game_with_def)
  show ?thesis
    using play_turn_win_before_loss[OF well_formed_RGBY h2 h3] well_formed_RGBY[of 9 False] h2 h3 unfolding m s by blast
qed

text \<open>
  C7, as stated, fails: \<^verbatim>\<open>play_turn\<close> does not look at the state of the game. A valid
  guess played after the game was won, or after the last try, is still counted, so the
  number of tries passes \<^verbatim>\<open>MAX_TRIES\<close>, and the secret guessed after the last try still
  sets \<^verbatim>\<open>game_won\<close>.
\<close>

theorem play_turn_tries_and_won_counterexample:
  "game_won (game_with RGBY 1 True)
   \<and> tries (game_with RGBY 1 True) = 1
   \<and> tries (snd (play_turn (game_with RGBY 1 True) ''RRRR'')) = 2
   \<and> tries (game_with RGBY 10 False) = MAX_TRIES (config (game_with RGBY 10 False))
   \<and> tries (snd (play_turn (game_with RGBY 10 False) ''RRRR'')) = 11
   \<and> game_won (snd (play_turn (game_with RGBY 10 False) ''RGBY''))"
  by code_simp

text \<open>
  C7, amended. A turn never resets \<^verbatim>\<open>game_won\<close>, and it counts a try exactly when the
  guess is valid, whatever the state. The end of the game is enforced by the loop of
  \<^verbatim>\<open>main\<close>: once the game is won or the tries equal \<^verbatim>\<open>MAX_TRIES\<close> the loop plays no
  further turn, whatever the player types, so the game no longer changes; a turn played
  while the condition of the loop holds leaves the tries at most \<^verbatim>\<open>MAX_TRIES\<close>, and
  so does the whole loop for a game that starts with at most \<^verbatim>\<open>MAX_TRIES\<close> tries.
\<close>

theorem play_turn_tries_and_won:
  "(game_won self \<longrightarrow> game_won (snd (play_turn self text)))
   \<and> tries (snd (play_turn self text))
       = (if validate_guess self (str_upper text) then tries self + 1 else tries self)
   \<and> (game_won self \<or> tries self = MAX_TRIES (config self) \<longrightarrow> main_loop self inputs = self)
   \<and> (main_continues self \<longrightarrow>
        tries (snd (play_turn self text)) \<le> MAX_TRIES (config (snd (play_turn self text))))
   \<and> (tries self \<le> MAX_TRIES (config self) \<longrightarrow>
        tries (main_loop self inputs) \<le> MAX_TRIES (config self))"
proof -
  have "main_loop self inputs = self" if "game_won self \<or> tries self = MAX_TRIES (config self)"
    using that by (intro main_loop_stopped) (auto simp: main_continues_def)
  moreover have "tries (snd (play_turn self text)) \<le> MAX_TRIES (config (snd (play_turn self text)))"
    if "main_continues self"
    using that play_turn_step[of self "text"] by (auto simp: main_continues_def split: if_splits)
  ultimately show ?thesis
    using play_turn_step[of self "text"] main_loop_bound[of self inputs] by blast
qed

text \<open>
  A won game, a game at its last try (where the loop ignores a further guess, even the
  secret), and a game two tries before the end, which the loop stops after two guesses.
\<close>

theorem play_turn_tries_and_won_witness:
  "game_won (game_with RGBY 1 True)
   \<and> game_won (snd (play_turn (game_with RGBY 1 True) ''RRRR''))
   \<and> tries (game_with RGBY 10 False) = MAX_TRIES (config (game_with RGBY 10 False))
   \<and> main_loop (game_with RGBY 10 False) [''RGBY''] = game_with RGBY 10 False
   \<and> main_continues (game_with RGBY 9 False)
   \<and> tries (snd (play_turn (game_with RGBY 9 False) ''RRRR''))
       \<le> MAX_TRIES (config (snd (play_turn (game_with RGBY 9 False) ''RRRR'')))
   \<and> tries (game_with RGBY 8 False) \<le> MAX_TRIES (config (game_with RGBY 8 False))
   \<and> tries (main_loop (game_with RGBY 8 False) [''rrrr'', '' gggg'', ''rgby''])
       \<le> MAX_TRIES (config (game_with RGBY 8 False))
   \<and> main_loop (game_with RGBY 8 False) [''rrrr'', '' gggg'', ''rgby''] = game_with RGBY 10 False"
proof -
  have h1: "game_won (game_with RGBY 1 True)" by code_simp
  have h2: "tries (game_with RGBY 10 False) = MAX_TRIES (config (game_with RGBY 10 False))"
    by code_simp
  have h3: "main_continues (game_with RGBY 9 False)" by code_simp
  have h4: "tries (game_with RGBY 8 False) \<le> MAX_TRIES (config (game_with RGBY 8 False))"
    by code_simp
  have v: "main_loop (game_with RGBY 8 False) [''rrrr'', '' gggg'', ''rgby''] = game_with RGBY 10 False"
    by code_simp
  show ?thesis
    using h1 h2 h3 h4 v
      play_turn_tries_and_won[of "game_with RGBY 1 True" "''RRRR''" "[]"]
      play_turn_tries_and_won[of "game_with RGBY 10 False" "''RRRR''" "[''RGBY'']"]
      play_turn_tries_and_won[of "game_with RGBY 9 False" "''RRRR''" "[]"]
      play_turn_tries_and_won[of "game_with RGBY 8 False" "''RRRR''" "[''rrrr'', '' gggg'', ''rgby'']"]
    by blast
qed

section \<open>The claims about construction\<close>

text \<open>
  C8, as stated, fails: the constructor validates nothing. With no tries allowed, with a
  negative code length, and with an empty palette and code length 0, a game is
  constructed.
\<close>

theorem init_validates_nothing_counterexample:
  "MastermindGame_init rnd_zero (Some (GameConfig_init None 4 0))
     = Inr \<lparr>config = GameConfig_init None 4 0, secret_code = [''R'', ''R'', ''R'', ''R''],
            tries = 0, game_won = False\<rparr>
   \<and> MastermindGame_init rnd_zero (Some (GameConfig_init None (- 1) 10))
     = Inr \<lparr>config = GameConfig_init None (- 1) 10, secret_code = [], tries = 0, game_won = False\<rparr>
   \<and> MastermindGame_init rnd_zero (Some (GameConfig_init (Some []) 0 10))
     = Inr \<lparr>config = GameConfig_init (Some []) 0 10, secret_code = [], tries = 0, game_won = False\<rparr>"
  by (simp add: MastermindGame_init_def generate_secret_code_def choices_def
      GameConfig_init_def default_COLORS_def rnd_zero_def list_getitem_def eval_nat_numeral)

text \<open>
  C8, amended. For every configuration, with the random source in [0, 1): when the
  palette is not empty or the code length is not positive, the constructor returns a game
  with that configuration, no try used and not won, whose secret has as many symbols of
  the palette as the code length asks for (none when it is not positive); the maximal
  number of tries is never looked at. Only an empty palette with a positive code length
  fails, with the \<open>IndexError\<close> of the random choice.
\<close>

theorem init_validates_nothing:
  assumes "random_source rnd"
  shows "(COLORS cfg \<noteq> [] \<or> CODE_LENGTH cfg \<le> 0 \<longrightarrow>
            (\<exists>code. MastermindGame_init rnd (Some cfg)
                      = Inr \<lparr>config = cfg, secret_code = code, tries = 0, game_won = False\<rparr>
                    \<and> length code = nat (CODE_LENGTH cfg)
                    \<and> set code \<subseteq> set (COLORS cfg)))
         \<and> (COLORS cfg = [] \<and> 0 < CODE_LENGTH cfg \<longrightarrow>
              MastermindGame_init rnd (Some cfg) = Inl IndexError)"
proof (intro conjI impI)
  assume "COLORS cfg \<noteq> [] \<or> CODE_LENGTH cfg \<le> 0"
  then show "\<exists>code. MastermindGame_init rnd (Some cfg)
                      = Inr \<lparr>config = cfg, secret_code = code, tries = 0, game_won = False\<rparr>
                    \<and> length code = nat (CODE_LENGTH cfg)
                    \<and> set code \<subseteq> set (COLORS cfg)"
  proof
    assume ne: "COLORS cfg \<noteq> []"
    from choices_from_ok[OF assms ne, of 0 "nat (CODE_LENGTH cfg)"]
    show ?thesis
      by (auto simp: MastermindGame_init_def generate_secret_code_def choices_def)
  next
    assume "CODE_LENGTH cfg \<le> 0"
    then show ?thesis
      by (simp add: MastermindGame_init_def generate_secret_code_def choices_def)
  qed
next
  assume a: "COLORS cfg = [] \<and> 0 < CODE_LENGTH cfg"
  then obtain k where "nat (CODE_LENGTH cfg) = Suc k"
    by (metis Suc_pred' zero_less_nat_eq)
  then show "MastermindGame_init rnd (Some cfg) = Inl IndexError"
    using a by (simp add: MastermindGame_init_def generate_secret_code_def choices_def
        list_getitem_def)
qed

text \<open>
  A configuration with no tries allowed is accepted; an empty palette with code length 4
  raises \<open>IndexError\<close>.
\<close>

theorem init_validates_nothing_witness:
  "random_source rnd_zero
   \<and> COLORS (GameConfig_init None 4 0) \<noteq> []
   \<and> MAX_TRIES (GameConfig_init None 4 0) = 0
   \<and> (\<exists>code. MastermindGame_init rnd_zero (Some (GameConfig_init None 4 0))
               = Inr \<lparr>config = GameConfig_init None 4 0, secret_code = code, tries = 0, game_won = False\<rparr>)
   \<and> COLORS (GameConfig_init (Some []) 4 10) = [] \<and> 0 < CODE_LENGTH (GameConfig_init (Some []) 4 10)
   \<and> MastermindGame_init rnd_zero (Some (GameConfig_init (Some []) 4 10)) = Inl IndexError"
proof -
  have h1: "COLORS (GameConfig_init None 4 0) \<noteq> []"
    by (simp add: GameConfig_init_def default_COLORS_def)
  have h0: "MAX_TRIES (GameConfig_init None 4 0) = 0"
    by (simp add: GameConfig_init_def)
  have h2: "COLORS (GameConfig_init (Some []) 4 10) = [] \<and> 0 < CODE_LENGTH (GameConfig_init (Some []) 4 10)"
    by (simp add: GameConfig_init_def)
  show ?thesis
    using init_validates_nothing[OF random_source_zero, of "GameConfig_init None 4 0"]
      init_validates_nothing[OF random_source_zero, of "GameConfig_init (Some []) 4 10"] h0 h1 h2 random_source_zero
    by blast
qed

text \<open>
  C9. For every configuration of the data model (a non-empty palette; of the code length
  only that it is not negative is needed) and every outcome of the random source, with
  each draw in [0, 1), the secret is generated, has exactly \<^verbatim>\<open>CODE_LENGTH\<close> symbols,
  and each of them is a symbol of the palette.
\<close>

theorem generate_secret_code_from_palette:
  assumes "random_source rnd" and "COLORS cfg \<noteq> []" and "0 \<le> CODE_LENGTH cfg"
  shows "\<exists>code. generate_secret_code rnd cfg = Inr code
           \<and> int (length code) = CODE_LENGTH cfg
           \<and> set code \<subseteq> set (COLORS cfg)"
  using choices_from_ok[OF assms(1,2), of 0 "nat (CODE_LENGTH cfg)"] assms(3)
  by (auto simp: generate_secret_code_def choices_def)

text \<open>
  The default configuration with every draw 1/2: the secret is YYYY.
\<close>

theorem generate_secret_code_from_palette_witness:
  "random_source rnd_half \<and> COLORS default_config \<noteq> [] \<and> 0 \<le> CODE_LENGTH default_config
   \<and> (\<exists>code. generate_secret_code rnd_half default_config = Inr code
           \<and> int (length code) = CODE_LENGTH default_config
           \<and> set code \<subseteq> set (COLORS default_config))
   \<and> generate_secret_code rnd_half default_config = Inr [''Y'', ''Y'', ''Y'', ''Y'']"
proof -
  have h2: "COLORS default_config \<noteq> []"
    by (simp add: default_config_def GameConfig_init_def default_COLORS_def)
  have h3: "0 \<le> CODE_LENGTH default_config"
    by (simp add: default_config_def GameConfig_init_def)
  have v: "generate_secret_code rnd_half default_config = Inr [''Y'', ''Y'', ''Y'', ''Y'']"
    by (simp add: generate_secret_code_def choices_def default_config_def GameConfig_init_def
        default_COLORS_def rnd_half_def list_getitem_def eval_nat_numeral)
  show ?thesis
    using generate_secret_code_from_palette[OF random_source_half h2 h3] random_source_half h2 h3 v by blast
qed

end
